theory Spec2Isabelle
  imports Complex_Main
begin

unbundle bit_operations_syntax

section \<open>Array primitives used by the gate operators\<close>

text \<open>
  The operators of \<^verbatim>\<open>netket_fidelity/operator/singlequbit_gates.py\<close> work on one-dimensional
  arrays (a basis configuration \<open>sigma\<close>, the local states of the Hilbert space) and on the
  two-dimensional array \<open>conns\<close> of connected configurations. Arrays are lists here, the
  entries of a configuration are values of an arbitrary type \<open>'a\<close> compared with \<open>=\<close>, and
  amplitudes are real or complex numbers: the arithmetic of the amplitudes is the exact
  one, not the rounded one of the machine floats (the doubles of the Hadamard gate have a
  section of their own below). The cast of a local state to the dtype
  of \<open>sigma\<close> (\<^verbatim>\<open>jnp.asarray(local_states[0], dtype=sigma.dtype)\<close>) is the identity.

  Whatever the array engine raises is a value of \<open>error\<close>, and a function that can raise
  returns \<open>error + 'r\<close>.
\<close>

datatype error = IndexError | ShapeError | TypeError | ImportError string

text \<open>An integer index counts from the end when it is negative.\<close>

definition normalize_index :: "nat \<Rightarrow> int \<Rightarrow> int" where
  "normalize_index n i = (if i < 0 then i + int n else i)"

definition in_bounds :: "nat \<Rightarrow> int \<Rightarrow> bool" where
  "in_bounds n i = (0 \<le> normalize_index n i \<and> normalize_index n i < int n)"

definition site :: "nat \<Rightarrow> int \<Rightarrow> nat" where
  "site n i = nat (normalize_index n i)"

text \<open>\<^verbatim>\<open>a.at[i].set(v)\<close> on one axis: an update out of range is dropped.\<close>

definition at_set :: "'a list \<Rightarrow> int \<Rightarrow> 'a \<Rightarrow> 'a list" where
  "at_set xs i v = (if in_bounds (length xs) i then xs[site (length xs) i := v] else xs)"

text \<open>\<^verbatim>\<open>a.at[i].get()\<close> and \<^verbatim>\<open>a[idx]\<close> with an array of indices: a gather, which clamps an
  index out of range to the nearest valid position instead of raising.\<close>

definition at_get :: "'a list \<Rightarrow> int \<Rightarrow> 'a" where
  "at_get xs i = xs ! nat (max 0 (min (normalize_index (length xs) i) (int (length xs) - 1)))"

text \<open>\<^verbatim>\<open>a[i]\<close> with a static integer \<open>i\<close>: the same clamped read. Only an axis of size 0,
  which has no position to read, makes the indexing raise.\<close>

definition getitem :: "'a list \<Rightarrow> int \<Rightarrow> error + 'a" where
  "getitem xs i = (if xs = [] then Inl IndexError else Inr (at_get xs i))"

definition gather :: "'a list \<Rightarrow> int list \<Rightarrow> 'a list" where
  "gather xs idx = map (at_get xs) idx"

text \<open>\<^verbatim>\<open>conns.at[r, i].set(v)\<close> on the two-dimensional array \<open>conns\<close>.\<close>

definition at_set2 :: "'a list list \<Rightarrow> nat \<Rightarrow> int \<Rightarrow> 'a \<Rightarrow> 'a list list" where
  "at_set2 conns r i v = conns[r := at_set (conns ! r) i v]"

section \<open>The single-qubit gates\<close>

text \<open>\<^verbatim>\<open>jnp.where(current_state == state_0, state_1, state_0)\<close>\<close>

definition flipped_state :: "'a \<Rightarrow> 'a \<Rightarrow> 'a \<Rightarrow> 'a" where
  "flipped_state state_0 state_1 current_state =
     (if current_state = state_0 then state_1 else state_0)"

text \<open>\<^verbatim>\<open>jnp.where(v == local_states[0], 1, -1)\<close>\<close>

definition phase_factor :: "'a \<Rightarrow> 'a \<Rightarrow> int" where
  "phase_factor v ls0 = (if v = ls0 then 1 else - 1)"

text \<open>The body of \<^verbatim>\<open>get_conns_and_mels_Rx\<close>, for one configuration (the function that
  \<^verbatim>\<open>jax.vmap\<close> maps over the batch).\<close>

definition get_conns_and_mels_Rx ::
    "'a list \<Rightarrow> int \<Rightarrow> real \<Rightarrow> 'a list \<Rightarrow> error + ('a list list \<times> complex list)" where
  "get_conns_and_mels_Rx sigma idx angle local_states =
     (case getitem local_states 0 of Inl e \<Rightarrow> Inl e | Inr state_0 \<Rightarrow>
      case getitem local_states 1 of Inl e \<Rightarrow> Inl e | Inr state_1 \<Rightarrow>
      let conns = replicate 2 sigma in
      case getitem sigma idx of Inl e \<Rightarrow> Inl e | Inr current_state \<Rightarrow>
      let flipped = flipped_state state_0 state_1 current_state;
          conns = at_set2 conns 1 idx flipped;
          mels = replicate 2 (0 :: complex);
          mels = mels[0 := complex_of_real (cos (angle / 2))];
          mels = mels[1 := - \<i> * complex_of_real (sin (angle / 2))]
      in Inr (conns, mels))"

text \<open>The body of \<^verbatim>\<open>get_conns_and_mels_Ry\<close>.\<close>

definition get_conns_and_mels_Ry ::
    "'a list \<Rightarrow> int \<Rightarrow> real \<Rightarrow> 'a list \<Rightarrow> error + ('a list list \<times> complex list)" where
  "get_conns_and_mels_Ry sigma idx angle local_states =
     (case getitem local_states 0 of Inl e \<Rightarrow> Inl e | Inr state_0 \<Rightarrow>
      case getitem local_states 1 of Inl e \<Rightarrow> Inl e | Inr state_1 \<Rightarrow>
      let conns = replicate 2 sigma in
      case getitem sigma idx of Inl e \<Rightarrow> Inl e | Inr current_state \<Rightarrow>
      let flipped = flipped_state state_0 state_1 current_state;
          conns = at_set2 conns 1 idx flipped;
          mels = replicate 2 (0 :: complex);
          mels = mels[0 := complex_of_real (cos (angle / 2))];
          phase = phase_factor (at_get (conns ! 0) idx) state_0;
          mels = mels[1 := complex_of_real (real_of_int phase * sin (angle / 2))]
      in Inr (conns, mels))"

text \<open>The body of \<^verbatim>\<open>get_conns_and_mels_Hadamard\<close>.\<close>

definition get_conns_and_mels_Hadamard ::
    "'a list \<Rightarrow> int \<Rightarrow> 'a list \<Rightarrow> error + ('a list list \<times> real list)" where
  "get_conns_and_mels_Hadamard sigma idx local_states =
     (case getitem local_states 0 of Inl e \<Rightarrow> Inl e | Inr state_0 \<Rightarrow>
      case getitem local_states 1 of Inl e \<Rightarrow> Inl e | Inr state_1 \<Rightarrow>
      let conns = replicate 2 sigma in
      case getitem sigma idx of Inl e \<Rightarrow> Inl e | Inr current_state \<Rightarrow>
      let flipped = flipped_state state_0 state_1 current_state;
          conns = at_set2 conns 1 idx flipped;
          mels = replicate 2 (0 :: real);
          mels = mels[1 := 1 / sqrt 2];
          state_value = at_get (conns ! 0) idx;
          mels_value = real_of_int (phase_factor state_value state_0) / sqrt 2;
          mels = mels[0 := mels_value]
      in Inr (conns, mels))"

section \<open>The Hadamard gate on several qubits\<close>

text \<open>\<^verbatim>\<open>[idx[j] for j in range(len(idx)) if (i >> j) & 1]\<close>\<close>

definition combination :: "int list \<Rightarrow> nat \<Rightarrow> int list" where
  "combination idx i =
     map (\<lambda>j. idx ! j) (filter (\<lambda>j. drop_bit j i AND 1 \<noteq> 0) [0..<length idx])"

text \<open>The inner loop \<^verbatim>\<open>for index in combination\<close>: it reads the site of \<open>sigma\<close> (a static
  index) and writes the flipped value into row \<open>i\<close> of \<open>conns\<close>.\<close>

fun flip_combination ::
    "'a list \<Rightarrow> 'a \<Rightarrow> 'a \<Rightarrow> nat \<Rightarrow> int list \<Rightarrow> 'a list list \<Rightarrow> error + 'a list list" where
  "flip_combination sigma state_0 state_1 i [] conns = Inr conns"
| "flip_combination sigma state_0 state_1 i (index # rest) conns =
     (case getitem sigma index of
        Inl e \<Rightarrow> Inl e
      | Inr current_state \<Rightarrow>
          flip_combination sigma state_0 state_1 i rest
            (at_set2 conns i index (flipped_state state_0 state_1 current_state)))"

text \<open>\<^verbatim>\<open>jnp.prod(jnp.where(conns[i, idx] == local_states[0], 1, -1)) / jnp.sqrt(2 ** len(idx))\<close>\<close>

definition mels_value_multiple :: "'a list \<Rightarrow> int list \<Rightarrow> 'a \<Rightarrow> real" where
  "mels_value_multiple row idx ls0 =
     real_of_int (prod_list (map (\<lambda>v. phase_factor v ls0) (gather row idx)))
       / sqrt (2 ^ length idx)"

text \<open>The outer loop \<^verbatim>\<open>for i in range(num_combinations)\<close>, over the counters still to do,
  with the arrays \<open>conns\<close> and \<open>mels\<close> as its state.\<close>

fun combinations_loop ::
    "'a list \<Rightarrow> int list \<Rightarrow> 'a \<Rightarrow> 'a \<Rightarrow> nat list \<Rightarrow> 'a list list \<times> real list
       \<Rightarrow> error + ('a list list \<times> real list)" where
  "combinations_loop sigma idx state_0 state_1 [] (conns, mels) = Inr (conns, mels)"
| "combinations_loop sigma idx state_0 state_1 (i # rest) (conns, mels) =
     (case flip_combination sigma state_0 state_1 i (combination idx i) conns of
        Inl e \<Rightarrow> Inl e
      | Inr conns' \<Rightarrow>
          combinations_loop sigma idx state_0 state_1 rest
            (conns', mels[i := mels_value_multiple (conns' ! i) idx state_0]))"

text \<open>The body of \<^verbatim>\<open>get_conns_and_mels_Hadamard_multiple\<close>.\<close>

definition get_conns_and_mels_Hadamard_multiple ::
    "'a list \<Rightarrow> int list \<Rightarrow> 'a list \<Rightarrow> error + ('a list list \<times> real list)" where
  "get_conns_and_mels_Hadamard_multiple sigma idx local_states =
     (case getitem local_states 0 of Inl e \<Rightarrow> Inl e | Inr state_0 \<Rightarrow>
      case getitem local_states 1 of Inl e \<Rightarrow> Inl e | Inr state_1 \<Rightarrow>
      let num_combinations = 2 ^ length idx;
          conns = replicate num_combinations sigma;
          mels = replicate num_combinations (0 :: real)
      in combinations_loop sigma idx state_0 state_1 [0..<num_combinations] (conns, mels))"

text \<open>What the specification says of the gate on several qubits: connection \<open>i\<close> is \<open>sigma\<close>
  with exactly the sites \<open>idx[j]\<close> flipped for which bit \<open>j\<close> of \<open>i\<close> is set, and its amplitude
  is the product of the signs of that connection at the sites of \<open>idx\<close>, divided by
  \<open>sqrt (2 ^ k)\<close>.\<close>

definition spec_flipped_site :: "nat \<Rightarrow> int list \<Rightarrow> nat \<Rightarrow> nat \<Rightarrow> bool" where
  "spec_flipped_site n idx i p =
     list_ex (\<lambda>j. site n (idx ! j) = p \<and> bit i j) [0..<length idx]"

definition spec_conn :: "'a list \<Rightarrow> int list \<Rightarrow> 'a list \<Rightarrow> nat \<Rightarrow> 'a list" where
  "spec_conn sigma idx ls i =
     map (\<lambda>p. if spec_flipped_site (length sigma) idx i p
               then (if sigma ! p = ls ! 0 then ls ! 1 else ls ! 0)
               else sigma ! p)
       [0..<length sigma]"

definition spec_mel :: "'a list \<Rightarrow> int list \<Rightarrow> 'a list \<Rightarrow> nat \<Rightarrow> real" where
  "spec_mel sigma idx ls i =
     (\<Prod>q\<leftarrow>idx. if spec_conn sigma idx ls i ! site (length sigma) q = ls ! 0 then 1 else - 1)
       / sqrt (2 ^ length idx)"

text \<open>Row \<open>i\<close> of \<open>conns\<close> after the inner loop, when every index is in range: the fold of
  the single-site writes over the combination. Used to state the loop invariants.\<close>

definition flip_row :: "'a list \<Rightarrow> 'a \<Rightarrow> 'a \<Rightarrow> int list \<Rightarrow> 'a list \<Rightarrow> 'a list" where
  "flip_row sigma s0 s1 qs row =
     fold (\<lambda>q r. r[site (length sigma) q :=
                    flipped_state s0 s1 (sigma ! site (length sigma) q)]) qs row"

definition row_of :: "'a list \<Rightarrow> int list \<Rightarrow> 'a \<Rightarrow> 'a \<Rightarrow> nat \<Rightarrow> 'a list" where
  "row_of sigma idx s0 s1 i = flip_row sigma s0 s1 (combination idx i) sigma"

section \<open>The operator classes\<close>

text \<open>The Hilbert space of the host framework, as far as the operators read it: its local
  states and its number of sites (\<^verbatim>\<open>hi.local_states\<close>, \<^verbatim>\<open>hi.size\<close>).\<close>

record 'a hilbert =
  hi_local_states :: "'a list"
  hi_size :: nat

text \<open>An instance of one of the four classes, with the arguments of its constructor, and a
  Python object as \<^verbatim>\<open>__eq__\<close> receives it: an operator, or an object of any other type.\<close>

datatype 'a operator =
    Rx "'a hilbert" int real
  | Ry "'a hilbert" int real
  | Hadamard "'a hilbert" int
  | Hadamard_multi "'a hilbert" "int list"

datatype 'a pyobject = Operator "'a operator" | Foreign

text \<open>The property \<^verbatim>\<open>H\<close> of each class.\<close>

fun H :: "'a operator \<Rightarrow> 'a operator" where
  "H (Rx hi idx angle) = Rx hi idx (- angle)"
| "H (Ry hi idx angle) = Ry hi idx (- angle * 2)"
| "H (Hadamard hi idx) = Hadamard hi idx"
| "H (Hadamard_multi hi idx) = Hadamard_multi hi idx"

text \<open>The property \<^verbatim>\<open>max_conn_size\<close> of each class.\<close>

fun max_conn_size :: "'a operator \<Rightarrow> nat" where
  "max_conn_size (Rx hi idx angle) = 2"
| "max_conn_size (Ry hi idx angle) = 2"
| "max_conn_size (Hadamard hi idx) = 2"
| "max_conn_size (Hadamard_multi hi idx) = 2 ^ length idx"

text \<open>\<^verbatim>\<open>self.__eq__(o)\<close> of each class: the \<^verbatim>\<open>isinstance\<close> test, then the comparison of the
  fields. \<^verbatim>\<open>Hadamard_multi.__eq__\<close> tests \<^verbatim>\<open>isinstance(o, Hadamard)\<close> and then compares the
  integer \<^verbatim>\<open>o.idx\<close> with its own list of indices; an integer and a list are values of
  different types, here the two sides of a sum.\<close>

fun op_eq :: "'a operator \<Rightarrow> 'a pyobject \<Rightarrow> bool" where
  "op_eq (Rx hi idx angle) other =
     (case other of Operator (Rx hi' idx' angle') \<Rightarrow> idx' = idx \<and> angle' = angle | _ \<Rightarrow> False)"
| "op_eq (Ry hi idx angle) other =
     (case other of Operator (Ry hi' idx' angle') \<Rightarrow> idx' = idx \<and> angle' = angle | _ \<Rightarrow> False)"
| "op_eq (Hadamard hi idx) other =
     (case other of Operator (Hadamard hi' idx') \<Rightarrow> idx' = idx | _ \<Rightarrow> False)"
| "op_eq (Hadamard_multi hi idx) other =
     (case other of
        Operator (Hadamard hi' idx') \<Rightarrow> (Inl idx' :: int + int list) = Inr idx
      | _ \<Rightarrow> False)"

section \<open>The batched methods\<close>

text \<open>A batch \<open>x\<close> is a two-dimensional array: the list of its rows, all of one length.
  \<^verbatim>\<open>x.reshape(-1, x.shape[-1])\<close> leaves such an array as it is, and fails when the rows are
  empty (the \<open>-1\<close> cannot be resolved against a width of 0).\<close>

definition reshape_rows :: "'a list list \<Rightarrow> error + 'a list list" where
  "reshape_rows x = (if list_ex (\<lambda>r. r = []) x then Inl ShapeError else Inr x)"

text \<open>\<^verbatim>\<open>jax.vmap(f, in_axes=(0, None, ...), out_axes=(0, 0))\<close>: \<open>f\<close> on every row, the two
  results stacked along the batch axis.\<close>

fun vmap :: "('s \<Rightarrow> error + 'c \<times> 'm) \<Rightarrow> 's list \<Rightarrow> error + ('c list \<times> 'm list)" where
  "vmap f [] = Inr ([], [])"
| "vmap f (sigma # rest) =
     (case f sigma of
        Inl e \<Rightarrow> Inl e
      | Inr (c, m) \<Rightarrow>
          (case vmap f rest of Inl e \<Rightarrow> Inl e | Inr (cs, ms) \<Rightarrow> Inr (c # cs, m # ms)))"

text \<open>\<^verbatim>\<open>get_conn_padded\<close> of each class. For a two-dimensional \<open>x\<close> the two reshapes of the
  results (\<^verbatim>\<open>x.shape[:-1] + xp.shape[-2:]\<close>) change nothing. The decorator \<^verbatim>\<open>@jax.jit\<close> on
  these methods changes nothing: they compute new arrays from their arguments and write to
  none of them.\<close>

definition Rx_get_conn_padded ::
    "'a hilbert \<Rightarrow> int \<Rightarrow> real \<Rightarrow> 'a list list \<Rightarrow> error + ('a list list list \<times> complex list list)" where
  "Rx_get_conn_padded hi idx angle x =
     (case reshape_rows x of
        Inl e \<Rightarrow> Inl e
      | Inr xr \<Rightarrow> vmap (\<lambda>sigma. get_conns_and_mels_Rx sigma idx angle (hi_local_states hi)) xr)"

definition Ry_get_conn_padded ::
    "'a hilbert \<Rightarrow> int \<Rightarrow> real \<Rightarrow> 'a list list \<Rightarrow> error + ('a list list list \<times> complex list list)" where
  "Ry_get_conn_padded hi idx angle x =
     (case reshape_rows x of
        Inl e \<Rightarrow> Inl e
      | Inr xr \<Rightarrow> vmap (\<lambda>sigma. get_conns_and_mels_Ry sigma idx angle (hi_local_states hi)) xr)"

definition Hadamard_get_conn_padded ::
    "'a hilbert \<Rightarrow> int \<Rightarrow> 'a list list \<Rightarrow> error + ('a list list list \<times> real list list)" where
  "Hadamard_get_conn_padded hi idx x =
     (case reshape_rows x of
        Inl e \<Rightarrow> Inl e
      | Inr xr \<Rightarrow> vmap (\<lambda>sigma. get_conns_and_mels_Hadamard sigma idx (hi_local_states hi)) xr)"

definition Hadamard_multi_get_conn_padded ::
    "'a hilbert \<Rightarrow> int list \<Rightarrow> 'a list list \<Rightarrow> error + ('a list list list \<times> real list list)" where
  "Hadamard_multi_get_conn_padded hi idx x =
     (case reshape_rows x of
        Inl e \<Rightarrow> Inl e
      | Inr xr \<Rightarrow>
          vmap (\<lambda>sigma. get_conns_and_mels_Hadamard_multiple sigma idx (hi_local_states hi)) xr)"

text \<open>\<^verbatim>\<open>np.arange(start, stop, step)\<close> for a positive step.\<close>

definition arange :: "int \<Rightarrow> int \<Rightarrow> int \<Rightarrow> int list" where
  "arange start stop step =
     map (\<lambda>k. start + int k * step) [0..<nat ((stop - start + step - 1) div step)]"

text \<open>\<^verbatim>\<open>sections[:] = values\<close> on one-dimensional arrays: the values fill the array when
  there are as many of them as it has places, one value is broadcast to every place, and
  any other number of values is refused.\<close>

definition assign_all :: "int list \<Rightarrow> int list \<Rightarrow> error + int list" where
  "assign_all sections vals =
     (if length vals = length sections then Inr vals
      else if length vals = 1 then Inr (replicate (length sections) (hd vals))
      else Inl ShapeError)"

text \<open>The same statement in a method under \<^verbatim>\<open>@jax.jit\<close>: the method receives its array
  arguments as tracers, a tracer is immutable, and the assignment to the traced \<open>sections\<close>
  raises \<^verbatim>\<open>TypeError\<close> whatever the values are.\<close>

definition traced_assign_all :: "int list \<Rightarrow> int list \<Rightarrow> error + int list" where
  "traced_assign_all sections vals = Inl TypeError"

text \<open>\<^verbatim>\<open>a.reshape(-1, w)\<close> on the entries of \<open>a\<close> in row-major order.\<close>

definition reshape_to_width :: "'a list \<Rightarrow> nat \<Rightarrow> error + 'a list list" where
  "reshape_to_width flat w =
     (if w = 0 then Inl ShapeError
      else if length flat mod w = 0
        then Inr (map (\<lambda>r. take w (drop (r * w) flat)) [0..<length flat div w])
      else Inl ShapeError)"

text \<open>The statements of \<^verbatim>\<open>get_conn_flattened\<close> after the call of \<^verbatim>\<open>get_conn_padded\<close>; the
  four classes have the same ones, with the same constants. The array \<open>sections\<close> is
  written in place, so the result is the new content of \<open>sections\<close> and what the method
  returns or raises. The parameter \<open>assign\<close> is the assignment \<^verbatim>\<open>sections[:] = ...\<close> as the
  method can do it: \<open>assign_all\<close> in the plain methods of \<^verbatim>\<open>Rx\<close> and \<^verbatim>\<open>Ry\<close>,
  \<open>traced_assign_all\<close> in the methods of \<^verbatim>\<open>Hadamard\<close> and \<^verbatim>\<open>Hadamard_multi\<close>, which are
  decorated with \<^verbatim>\<open>@jax.jit\<close>.\<close>

definition fill_sections_and_flatten ::
    "(int list \<Rightarrow> int list \<Rightarrow> error + int list) \<Rightarrow> 'a hilbert \<Rightarrow> 'a list list list
       \<Rightarrow> 'm list list \<Rightarrow> int list \<Rightarrow> int list \<times> (error + ('a list list \<times> 'm list))" where
  "fill_sections_and_flatten assign hi xp mels sections =
     (case assign sections (arange 2 (int (length (concat mels)) + 2) 2) of
        Inl e \<Rightarrow> (sections, Inl e)
      | Inr sections' \<Rightarrow>
          (sections',
           case reshape_to_width (concat (concat xp)) (hi_size hi) of
             Inl e \<Rightarrow> Inl e
           | Inr xp' \<Rightarrow> Inr (xp', concat mels)))"

definition Rx_get_conn_flattened ::
    "'a hilbert \<Rightarrow> int \<Rightarrow> real \<Rightarrow> 'a list list \<Rightarrow> int list
       \<Rightarrow> int list \<times> (error + ('a list list \<times> complex list))" where
  "Rx_get_conn_flattened hi idx angle x sections =
     (case Rx_get_conn_padded hi idx angle x of
        Inl e \<Rightarrow> (sections, Inl e)
      | Inr (xp, mels) \<Rightarrow> fill_sections_and_flatten assign_all hi xp mels sections)"

definition Ry_get_conn_flattened ::
    "'a hilbert \<Rightarrow> int \<Rightarrow> real \<Rightarrow> 'a list list \<Rightarrow> int list
       \<Rightarrow> int list \<times> (error + ('a list list \<times> complex list))" where
  "Ry_get_conn_flattened hi idx angle x sections =
     (case Ry_get_conn_padded hi idx angle x of
        Inl e \<Rightarrow> (sections, Inl e)
      | Inr (xp, mels) \<Rightarrow> fill_sections_and_flatten assign_all hi xp mels sections)"

definition Hadamard_get_conn_flattened ::
    "'a hilbert \<Rightarrow> int \<Rightarrow> 'a list list \<Rightarrow> int list
       \<Rightarrow> int list \<times> (error + ('a list list \<times> real list))" where
  "Hadamard_get_conn_flattened hi idx x sections =
     (case Hadamard_get_conn_padded hi idx x of
        Inl e \<Rightarrow> (sections, Inl e)
      | Inr (xp, mels) \<Rightarrow> fill_sections_and_flatten traced_assign_all hi xp mels sections)"

definition Hadamard_multi_get_conn_flattened ::
    "'a hilbert \<Rightarrow> int list \<Rightarrow> 'a list list \<Rightarrow> int list
       \<Rightarrow> int list \<times> (error + ('a list list \<times> real list))" where
  "Hadamard_multi_get_conn_flattened hi idx x sections =
     (case Hadamard_multi_get_conn_padded hi idx x of
        Inl e \<Rightarrow> (sections, Inl e)
      | Inr (xp, mels) \<Rightarrow> fill_sections_and_flatten traced_assign_all hi xp mels sections)"

section \<open>The package's import\<close>

text \<open>The names that \<^verbatim>\<open>singlequbit_gates.py\<close> binds at module level, in the order of the
  file: its imports, the four classes and the four functions.\<close>

definition singlequbit_gates_names :: "string list" where
  "singlequbit_gates_names =
     [''partial'', ''np'', ''jax'', ''jnp'', ''register_pytree_node_class'',
      ''DiscreteJaxOperator'', ''spin'',
      ''Rx'', ''get_conns_and_mels_Rx'', ''Ry'', ''get_conns_and_mels_Ry'',
      ''Hadamard'', ''get_conns_and_mels_Hadamard'',
      ''Hadamard_multi'', ''get_conns_and_mels_Hadamard_multiple'']"

text \<open>The names of line 3 of \<^verbatim>\<open>__init__.py\<close>:
  \<^verbatim>\<open>from .singlequbit_gates import Rx, Ry, Hadamard, Measure_0, Measure_1\<close>\<close>

definition init_imported_names :: "string list" where
  "init_imported_names = [''Rx'', ''Ry'', ''Hadamard'', ''Measure_0'', ''Measure_1'']"

text \<open>\<^verbatim>\<open>from m import n1, n2, ...\<close>: the names are looked up in the module in order, and the
  first one the module does not bind raises \<^verbatim>\<open>ImportError\<close>.\<close>

fun import_from :: "string list \<Rightarrow> string list \<Rightarrow> error + string list" where
  "import_from module_names [] = Inr []"
| "import_from module_names (n # ns) =
     (if n \<in> set module_names
      then (case import_from module_names ns of Inl e \<Rightarrow> Inl e | Inr bound \<Rightarrow> Inr (n # bound))
      else Inl (ImportError n))"

text \<open>Importing \<^verbatim>\<open>netket_fidelity.operator\<close> runs its \<^verbatim>\<open>__init__.py\<close>. Whether the packages
  outside this repository (\<^verbatim>\<open>netket\<close>, \<^verbatim>\<open>jax\<close>, \<^verbatim>\<open>numpy\<close>) can be imported is the
  parameter \<open>host_ok\<close>: when they cannot, line 1 or the imports of the submodule raise
  \<^verbatim>\<open>ImportError\<close> themselves. The result is the list of gate names the package binds.\<close>

definition import_operator_package :: "bool \<Rightarrow> error + string list" where
  "import_operator_package host_ok =
     (if host_ok then import_from singlequbit_gates_names init_imported_names
      else Inl (ImportError ''netket''))"

section \<open>The amplitudes as IEEE doubles\<close>

text \<open>
  The definitions above compute the amplitudes in exact arithmetic. The code holds them as
  IEEE 754 doubles (\<^verbatim>\<open>dtype=float\<close>, \<^verbatim>\<open>dtype=complex\<close>). Square root, division, multiplication
  and addition of doubles are correctly rounded: the result is the double nearest to the
  exact result, a tie going to the even significand. A double is modelled by the rational
  number it holds, with 53 significant bits; infinities, NaN, signed zeros and the subnormal
  range are left out, the amplitudes being near 1. Cosine and sine have no such rule, so
  only the amplitudes of the Hadamard gate are modelled this way.
\<close>














section \<open>Results of the single-qubit gates\<close>

lemma at_get_in_bounds: "in_bounds (length xs) i \<Longrightarrow> at_get xs i = xs ! site (length xs) i"
  by (simp add: at_get_def in_bounds_def site_def)

lemma site_less: "in_bounds n i \<Longrightarrow> site n i < n"
  unfolding in_bounds_def site_def by linarith

lemma getitem_in_bounds:
  "in_bounds (length xs) i \<Longrightarrow> getitem xs i = Inr (xs ! site (length xs) i)"
  by (auto simp: getitem_def at_get_in_bounds in_bounds_def)

lemma getitem_local_states:
  "2 \<le> length ls \<Longrightarrow> getitem ls 0 = Inr (ls ! 0) \<and> getitem ls 1 = Inr (ls ! 1)"
  by (auto simp: getitem_def at_get_def normalize_index_def)

lemma Rx_result:
  assumes "2 \<le> length ls" and "in_bounds (length sigma) idx"
  shows "get_conns_and_mels_Rx sigma idx angle ls =
           Inr ([sigma, sigma[site (length sigma) idx :=
                          flipped_state (ls ! 0) (ls ! 1) (sigma ! site (length sigma) idx)]],
                [complex_of_real (cos (angle / 2)), - \<i> * complex_of_real (sin (angle / 2))])"
  using assms getitem_local_states [OF assms(1)]
  by (simp add: get_conns_and_mels_Rx_def getitem_in_bounds at_set2_def at_set_def Let_def
      numeral_2_eq_2)

lemma Ry_result:
  assumes "2 \<le> length ls" and "in_bounds (length sigma) idx"
  shows "get_conns_and_mels_Ry sigma idx angle ls =
           Inr ([sigma, sigma[site (length sigma) idx :=
                          flipped_state (ls ! 0) (ls ! 1) (sigma ! site (length sigma) idx)]],
                [complex_of_real (cos (angle / 2)),
                 complex_of_real (real_of_int (phase_factor (sigma ! site (length sigma) idx) (ls ! 0))
                                  * sin (angle / 2))])"
  using assms getitem_local_states [OF assms(1)]
  by (simp add: get_conns_and_mels_Ry_def getitem_in_bounds at_set2_def at_set_def Let_def
      numeral_2_eq_2 at_get_in_bounds)

lemma Hadamard_result:
  assumes "2 \<le> length ls" and "in_bounds (length sigma) idx"
  shows "get_conns_and_mels_Hadamard sigma idx ls =
           Inr ([sigma, sigma[site (length sigma) idx :=
                          flipped_state (ls ! 0) (ls ! 1) (sigma ! site (length sigma) idx)]],
                [real_of_int (phase_factor (sigma ! site (length sigma) idx) (ls ! 0)) / sqrt 2,
                 1 / sqrt 2])"
  using assms getitem_local_states [OF assms(1)]
  by (simp add: get_conns_and_mels_Hadamard_def getitem_in_bounds at_set2_def at_set_def Let_def
      numeral_2_eq_2 at_get_in_bounds)

section \<open>The loops of the Hadamard gate on several qubits\<close>


lemma bit_test: "(drop_bit j (i::nat) AND 1 \<noteq> 0) = bit i j"
proof -
  have "(drop_bit j i mod 2 \<noteq> 0) = odd (drop_bit j i)"
    by presburger
  then show ?thesis
    by (simp only: and_one_eq bit_iff_odd_drop_bit)
qed

lemma set_combination:
  "set (combination idx i) = {idx ! j | j. j < length idx \<and> bit i j}"
  unfolding combination_def bit_test by auto


lemma length_flip_row: "length (flip_row sigma s0 s1 qs row) = length row"
  by (induction qs arbitrary: row) (simp_all add: flip_row_def)

lemma flip_row_nth:
  "p < length row \<Longrightarrow>
   flip_row sigma s0 s1 qs row ! p =
     (if p \<in> site (length sigma) ` set qs then flipped_state s0 s1 (sigma ! p) else row ! p)"
proof (induction qs arbitrary: row)
  case Nil
  then show ?case by (simp add: flip_row_def)
next
  case (Cons q qs)
  have "flip_row sigma s0 s1 (q # qs) row =
        flip_row sigma s0 s1 qs (row[site (length sigma) q := flipped_state s0 s1 (sigma ! site (length sigma) q)])"
    by (simp add: flip_row_def)
  with Cons show ?case
    by (auto simp: nth_list_update)
qed

lemma flip_combination_ok:
  assumes "\<forall>q\<in>set qs. in_bounds (length sigma) q"
    and "i < length conns" and "length (conns ! i) = length sigma"
  shows "flip_combination sigma s0 s1 i qs conns =
           Inr (conns[i := flip_row sigma s0 s1 qs (conns ! i)])"
  using assms
proof (induction qs arbitrary: conns)
  case Nil
  then show ?case by (simp add: flip_row_def)
next
  case (Cons q qs)
  let ?c = "at_set2 conns i q (flipped_state s0 s1 (sigma ! site (length sigma) q))"
  have q: "in_bounds (length sigma) q" using Cons.prems by simp
  have c: "?c = conns[i := (conns ! i)[site (length sigma) q := flipped_state s0 s1 (sigma ! site (length sigma) q)]]"
    using q Cons.prems by (simp add: at_set2_def at_set_def)
  have "flip_combination sigma s0 s1 i (q # qs) conns = flip_combination sigma s0 s1 i qs ?c"
    using q by (simp add: getitem_in_bounds)
  also have "\<dots> = Inr (?c[i := flip_row sigma s0 s1 qs (?c ! i)])"
    using Cons.prems by (intro Cons.IH) (simp_all add: c)
  also have "\<dots> = Inr (conns[i := flip_row sigma s0 s1 (q # qs) (conns ! i)])"
    using Cons.prems by (simp add: c flip_row_def)
  finally show ?case .
qed



lemma in_bounds_combination:
  "\<forall>q\<in>set idx. in_bounds n q \<Longrightarrow> \<forall>q\<in>set (combination idx i). in_bounds n q"
  by (auto simp: set_combination)

lemma combinations_loop_ok:
  assumes "\<forall>q\<in>set idx. in_bounds (length sigma) q"
    and "\<forall>i\<in>set todo. i < length conns \<and> conns ! i = sigma"
    and "distinct todo"
  shows "combinations_loop sigma idx s0 s1 todo (conns, mels) =
           Inr (fold (\<lambda>i c. c[i := row_of sigma idx s0 s1 i]) todo conns,
                fold (\<lambda>i m. m[i := mels_value_multiple (row_of sigma idx s0 s1 i) idx s0]) todo mels)"
  using assms(2,3)
proof (induction todo arbitrary: conns mels)
  case Nil
  then show ?case by simp
next
  case (Cons i todo)
  let ?c = "conns[i := row_of sigma idx s0 s1 i]"
  have i: "i < length conns" "conns ! i = sigma"
    using Cons.prems(1) by simp_all
  have flip: "flip_combination sigma s0 s1 i (combination idx i) conns = Inr ?c"
    using flip_combination_ok [OF in_bounds_combination [OF assms(1)],
        where i = i and conns = conns and ?s0.0 = s0 and ?s1.0 = s1 and ?i1 = i] i
    by (simp add: row_of_def)
  have rest: "\<forall>j\<in>set todo. j < length ?c \<and> ?c ! j = sigma"
  proof
    fix j assume j: "j \<in> set todo"
    then have "j \<noteq> i" using Cons.prems(2) by auto
    moreover have "j < length conns" "conns ! j = sigma"
      using Cons.prems(1) j by simp_all
    ultimately show "j < length ?c \<and> ?c ! j = sigma"
      by simp
  qed
  have "distinct todo"
    using Cons.prems(2) by simp
  from Cons.IH [OF rest this] flip i show ?case
    by simp
qed

lemma fold_update_nth:
  "p < length c \<Longrightarrow>
   fold (\<lambda>i c. c[i := f i]) todo c ! p = (if p \<in> set todo then f p else c ! p)"
  by (induction todo arbitrary: c) (auto simp: nth_list_update)

lemma length_fold_update: "length (fold (\<lambda>i c. c[i := f i]) todo c) = length c"
  by (induction todo arbitrary: c) simp_all

lemma fold_update_all:
  "length c = m \<Longrightarrow> fold (\<lambda>i c. c[i := f i]) [0..<m] c = map f [0..<m]"
  by (rule nth_equalityI) (simp_all add: length_fold_update fold_update_nth)

lemma loop_result:
  assumes "2 \<le> length ls" and "\<forall>q\<in>set idx. in_bounds (length sigma) q"
  shows "get_conns_and_mels_Hadamard_multiple sigma idx ls =
           Inr (map (row_of sigma idx (ls ! 0) (ls ! 1)) [0..<2 ^ length idx],
                map (\<lambda>i. mels_value_multiple (row_of sigma idx (ls ! 0) (ls ! 1) i) idx (ls ! 0))
                  [0..<2 ^ length idx])"
proof -
  let ?m = "2 ^ length idx :: nat"
  have "combinations_loop sigma idx (ls ! 0) (ls ! 1) [0..<?m]
          (replicate ?m sigma, replicate ?m 0) =
        Inr (fold (\<lambda>i c. c[i := row_of sigma idx (ls ! 0) (ls ! 1) i]) [0..<?m] (replicate ?m sigma),
             fold (\<lambda>i m. m[i := mels_value_multiple (row_of sigma idx (ls ! 0) (ls ! 1) i) idx (ls ! 0)])
               [0..<?m] (replicate ?m 0))"
    by (rule combinations_loop_ok [OF assms(2)]) simp_all
  then show ?thesis
    using getitem_local_states [OF assms(1)]
    by (simp add: get_conns_and_mels_Hadamard_multiple_def Let_def fold_update_all)
qed

lemma row_of_spec:
  assumes "\<forall>q\<in>set idx. in_bounds (length sigma) q"
  shows "row_of sigma idx (ls ! 0) (ls ! 1) i = spec_conn sigma idx ls i"
proof (rule nth_equalityI)
  show "length (row_of sigma idx (ls ! 0) (ls ! 1) i) = length (spec_conn sigma idx ls i)"
    by (simp add: row_of_def length_flip_row spec_conn_def)
next
  fix p assume "p < length (row_of sigma idx (ls ! 0) (ls ! 1) i)"
  then have p: "p < length sigma"
    by (simp add: row_of_def length_flip_row)
  have "(p \<in> site (length sigma) ` set (combination idx i)) =
        spec_flipped_site (length sigma) idx i p"
    unfolding set_combination spec_flipped_site_def list_ex_iff by force
  with p show "row_of sigma idx (ls ! 0) (ls ! 1) i ! p = spec_conn sigma idx ls i ! p"
    by (simp add: row_of_def flip_row_nth spec_conn_def flipped_state_def)
qed

lemma of_int_prod_list: "real_of_int (prod_list (map f xs)) = (\<Prod>x\<leftarrow>xs. real_of_int (f x))"
  by (induction xs) simp_all

lemma mel_spec:
  assumes "\<forall>q\<in>set idx. in_bounds (length sigma) q"
  shows "mels_value_multiple (spec_conn sigma idx ls i) idx (ls ! 0) = spec_mel sigma idx ls i"
proof -
  have len: "length (spec_conn sigma idx ls i) = length sigma"
    by (simp add: spec_conn_def)
  have "map (\<lambda>v. real_of_int (phase_factor v (ls ! 0))) (gather (spec_conn sigma idx ls i) idx) =
        map (\<lambda>q. if spec_conn sigma idx ls i ! site (length sigma) q = ls ! 0 then 1 else - 1) idx"
    using assms by (auto simp: gather_def at_get_in_bounds len phase_factor_def)
  then show ?thesis
    by (simp add: mels_value_multiple_def spec_mel_def of_int_prod_list comp_def)
qed

lemma Hadamard_multiple_result:
  assumes "2 \<le> length ls" and "\<forall>q\<in>set idx. in_bounds (length sigma) q"
  shows "get_conns_and_mels_Hadamard_multiple sigma idx ls =
           Inr (map (spec_conn sigma idx ls) [0..<2 ^ length idx],
                map (spec_mel sigma idx ls) [0..<2 ^ length idx])"
  unfolding loop_result [OF assms] row_of_spec [OF assms(2)] mel_spec [OF assms(2)] ..

section \<open>Norms, batches and sections\<close>




lemma vmap_rows:
  assumes "\<forall>s\<in>set xs. \<exists>c m. f s = Inr (c, m)"
  shows "\<exists>cs ms. vmap f xs = Inr (cs, ms) \<and> length cs = length xs \<and> length ms = length xs \<and>
           (\<forall>n<length xs. f (xs ! n) = Inr (cs ! n, ms ! n))"
  using assms
proof (induction xs)
  case Nil
  then show ?case by simp
next
  case (Cons s xs)
  from Cons.prems obtain c m where s: "f s = Inr (c, m)"
    by auto
  from Cons obtain cs ms where rest: "vmap f xs = Inr (cs, ms)" "length cs = length xs"
      "length ms = length xs" "\<forall>n<length xs. f (xs ! n) = Inr (cs ! n, ms ! n)"
    by auto
  have "\<forall>n<length (s # xs). f ((s # xs) ! n) = Inr ((c # cs) ! n, (m # ms) ! n)"
    using s rest(4) by (auto simp: nth_Cons split: nat.split)
  with s rest show ?case
    by simp
qed

lemma reshape_rows_ok: "[] \<notin> set x \<Longrightarrow> reshape_rows x = Inr x"
  by (auto simp: reshape_rows_def list_ex_iff)

lemma flipped_twice:
  "(flipped_state s0 s1 (flipped_state s0 s1 v) = v) = (v = s0 \<or> v = s1)"
  by (auto simp: flipped_state_def)

lemma spec_conn_flipped_site:
  assumes "\<forall>q\<in>set idxs. in_bounds (length sigma) q" and "j < length idxs" and "bit i j"
  shows "spec_conn sigma idxs ls i ! site (length sigma) (idxs ! j) =
           (if sigma ! site (length sigma) (idxs ! j) = ls ! 0 then ls ! 1 else ls ! 0)"
proof -
  have "site (length sigma) (idxs ! j) < length sigma"
    using assms(1,2) by (simp add: site_less)
  moreover have "spec_flipped_site (length sigma) idxs i (site (length sigma) (idxs ! j))"
    using assms(2,3) by (auto simp: spec_flipped_site_def list_ex_iff)
  ultimately show ?thesis
    by (simp add: spec_conn_def)
qed

lemma arange_step_2: "arange 2 (2 * int N + 2) 2 = map (\<lambda>n. 2 * (int n + 1)) [0..<N]"
proof -
  have "nat ((2 * int N + 2 - 2 + 2 - 1) div 2) = N"
    by simp
  then show ?thesis
    by (simp add: arange_def algebra_simps)
qed

lemma concat_rows_of_2:
  "\<forall>m\<in>set mels. length m = 2 \<Longrightarrow> length (concat mels) = 2 * length mels"
  by (induction mels) simp_all

lemma Rx_sections:
  assumes "2 \<le> length (hi_local_states hi)"
    and "\<forall>sigma\<in>set x. in_bounds (length sigma) idx"
    and "length sections = length x"
  shows "fst (Rx_get_conn_flattened hi idx angle x sections) =
           map (\<lambda>n. 2 * (int n + 1)) [0..<length x]"
proof -
  have ok: "\<forall>s\<in>set x. \<exists>c m. get_conns_and_mels_Rx s idx angle (hi_local_states hi) = Inr (c, m)"
    using Rx_result [OF assms(1)] assms(2) by blast
  have rows: "[] \<notin> set x"
    using assms(2) by (auto simp: in_bounds_def normalize_index_def)
  from vmap_rows [OF ok] obtain xp mels where
    v: "vmap (\<lambda>sigma. get_conns_and_mels_Rx sigma idx angle (hi_local_states hi)) x = Inr (xp, mels)"
    and len: "length mels = length x"
    and nth: "\<forall>n<length x. get_conns_and_mels_Rx (x ! n) idx angle (hi_local_states hi)
                = Inr (xp ! n, mels ! n)"
    by blast
  have "\<forall>m\<in>set mels. length m = 2"
  proof
    fix m assume "m \<in> set mels"
    then obtain n where n: "n < length x" "m = mels ! n"
      using len by (auto simp: in_set_conv_nth)
    with nth assms(2) Rx_result [OF assms(1), of "x ! n" idx angle] show "length m = 2"
      by auto
  qed
  then have size: "length (concat mels) = 2 * length x"
    using len by (simp add: concat_rows_of_2)
  show ?thesis
    using assms(3)
    by (simp add: Rx_get_conn_flattened_def Rx_get_conn_padded_def reshape_rows_ok [OF rows] v
        fill_sections_and_flatten_def size arange_step_2 assign_all_def)
qed

lemma Ry_sections:
  assumes "2 \<le> length (hi_local_states hi)"
    and "\<forall>sigma\<in>set x. in_bounds (length sigma) idx"
    and "length sections = length x"
  shows "fst (Ry_get_conn_flattened hi idx angle x sections) =
           map (\<lambda>n. 2 * (int n + 1)) [0..<length x]"
proof -
  have ok: "\<forall>s\<in>set x. \<exists>c m. get_conns_and_mels_Ry s idx angle (hi_local_states hi) = Inr (c, m)"
    using Ry_result [OF assms(1)] assms(2) by blast
  have rows: "[] \<notin> set x"
    using assms(2) by (auto simp: in_bounds_def normalize_index_def)
  from vmap_rows [OF ok] obtain xp mels where
    v: "vmap (\<lambda>sigma. get_conns_and_mels_Ry sigma idx angle (hi_local_states hi)) x = Inr (xp, mels)"
    and len: "length mels = length x"
    and nth: "\<forall>n<length x. get_conns_and_mels_Ry (x ! n) idx angle (hi_local_states hi)
                = Inr (xp ! n, mels ! n)"
    by blast
  have "\<forall>m\<in>set mels. length m = 2"
  proof
    fix m assume "m \<in> set mels"
    then obtain n where n: "n < length x" "m = mels ! n"
      using len by (auto simp: in_set_conv_nth)
    with nth assms(2) Ry_result [OF assms(1), of "x ! n" idx angle] show "length m = 2"
      by auto
  qed
  then have size: "length (concat mels) = 2 * length x"
    using len by (simp add: concat_rows_of_2)
  show ?thesis
    using assms(3)
    by (simp add: Ry_get_conn_flattened_def Ry_get_conn_padded_def reshape_rows_ok [OF rows] v
        fill_sections_and_flatten_def size arange_step_2 assign_all_def)
qed




section \<open>The claims\<close>

text \<open>
  C1. For every configuration \<open>sigma\<close> and every list \<open>idx\<close> of \<open>k\<close> target sites in range, the
  connect function of the Hadamard gate on several qubits returns exactly \<open>2 ^ k\<close> connections
  and amplitudes: for each counter \<open>i\<close> in \<open>0..2^k - 1\<close>, connection \<open>i\<close> is \<open>sigma\<close> with exactly
  the sites \<open>idx[j]\<close> flipped for which bit \<open>j\<close> of \<open>i\<close> is set (\<open>spec_conn\<close>), and amplitude \<open>i\<close>
  is the product over \<open>q\<close> in \<open>idx\<close> of \<open>+1\<close> when that connection holds \<open>state_0\<close> at \<open>q\<close> and \<open>-1\<close>
  otherwise, divided by \<open>sqrt (2 ^ k)\<close> (\<open>spec_mel\<close>). The sites need not even be distinct.
\<close>

theorem C1_Hadamard_multi_connect:
  assumes "2 \<le> length ls" and "\<forall>q\<in>set idx. in_bounds (length sigma) q"
  shows "get_conns_and_mels_Hadamard_multiple sigma idx ls =
           Inr (map (spec_conn sigma idx ls) [0..<2 ^ length idx],
                map (spec_mel sigma idx ls) [0..<2 ^ length idx])"
  using Hadamard_multiple_result [OF assms] .

theorem C1_Hadamard_multi_connect_witness:
  "get_conns_and_mels_Hadamard_multiple [0, 1, 0 :: int] [0, 2] [0, 1] =
     Inr ([[0, 1, 0], [1, 1, 0], [0, 1, 1], [1, 1, 1]], [1 / 2, - 1 / 2, - 1 / 2, 1 / 2])"
proof -
  have idx: "\<forall>q\<in>set [0, 2 :: int]. in_bounds (length [0, 1, 0 :: int]) q"
    by (simp add: in_bounds_def normalize_index_def)
  have conns: "map (spec_conn [0, 1, 0 :: int] [0, 2] [0, 1]) [0..<2 ^ length [0, 2 :: int]] =
               [[0, 1, 0], [1, 1, 0], [0, 1, 1], [1, 1, 1]]"
    by code_simp
  have signs: "map (\<lambda>i. \<Prod>q\<leftarrow>[0, 2 :: int].
                   if spec_conn [0, 1, 0 :: int] [0, 2] [0, 1] i ! site (length [0, 1, 0 :: int]) q
                      = [0, 1] ! 0
                   then 1 else - 1 :: real) [0..<2 ^ length [0, 2 :: int]] =
               [1, - 1, - 1, 1]"
    by code_simp
  have "map (spec_mel [0, 1, 0 :: int] [0, 2] [0, 1]) [0..<2 ^ length [0, 2 :: int]] =
        map (\<lambda>s. s / 2) [1, - 1, - 1, 1]"
    unfolding signs [symmetric] by (simp add: spec_mel_def)
  with conns C1_Hadamard_multi_connect [of "[0, 1 :: int]" "[0, 2]" "[0, 1, 0]", OF _ idx]
  show ?thesis
    by simp
qed

text \<open>
  C2. For every configuration \<open>sigma\<close>, with the target index in range and at least two local
  states, the connect function of the Rx gate returns two connections and two amplitudes:
  \<open>conns[0]\<close> is \<open>sigma\<close>, \<open>conns[1]\<close> is \<open>sigma\<close> with the value at the target site changed to
  \<open>state_1\<close> when it was \<open>state_0\<close> and to \<open>state_0\<close> otherwise, \<open>mels[0]\<close> is \<open>cos (angle / 2)\<close>
  and \<open>mels[1]\<close> is \<open>- \<i> * sin (angle / 2)\<close>.
\<close>

theorem C2_Rx_connect:
  assumes "2 \<le> length ls" and "in_bounds (length sigma) idx"
  shows "get_conns_and_mels_Rx sigma idx angle ls =
           Inr ([sigma,
                 sigma[site (length sigma) idx :=
                   (if sigma ! site (length sigma) idx = ls ! 0 then ls ! 1 else ls ! 0)]],
                [complex_of_real (cos (angle / 2)), - \<i> * complex_of_real (sin (angle / 2))])"
  using Rx_result [OF assms] by (simp add: flipped_state_def)

theorem C2_Rx_connect_witness:
  "get_conns_and_mels_Rx [0, 1, 0 :: int] 1 pi [0, 1] = Inr ([[0, 1, 0], [0, 0, 0]], [0, - \<i>])"
  using C2_Rx_connect [of "[0, 1 :: int]" "[0, 1, 0]" 1 pi]
  by (simp add: in_bounds_def normalize_index_def site_def)

text \<open>
  C3. The off-diagonal amplitude \<open>mels[1]\<close> of the Ry gate is \<open>s * sin (angle / 2)\<close>, where \<open>s\<close>
  is \<open>+1\<close> when the input configuration \<open>sigma\<close> holds \<open>state_0\<close> at the target site and \<open>-1\<close>
  otherwise: the sign is read from \<open>sigma\<close>, not from the flipped connection \<open>conns[1]\<close>.
\<close>

theorem C3_Ry_sign_of_input:
  assumes "2 \<le> length ls" and "in_bounds (length sigma) idx"
  shows "get_conns_and_mels_Ry sigma idx angle ls =
           Inr ([sigma,
                 sigma[site (length sigma) idx :=
                   (if sigma ! site (length sigma) idx = ls ! 0 then ls ! 1 else ls ! 0)]],
                [complex_of_real (cos (angle / 2)),
                 complex_of_real
                   ((if sigma ! site (length sigma) idx = ls ! 0 then 1 else - 1) * sin (angle / 2))])"
  using Ry_result [OF assms] by (simp add: flipped_state_def phase_factor_def)

theorem C3_Ry_sign_of_input_witness:
  "get_conns_and_mels_Ry [0, 1, 0 :: int] 1 pi [0, 1] = Inr ([[0, 1, 0], [0, 0, 0]], [0, - 1])"
  using C3_Ry_sign_of_input [of "[0, 1 :: int]" "[0, 1, 0]" 1 pi]
  by (simp add: in_bounds_def normalize_index_def site_def)

text \<open>
  C4. The adjoint of \<open>Ry(hi, idx, theta)\<close> is \<open>Ry(hi, idx, -2 * theta)\<close>: the two are the same
  instance, and \<^verbatim>\<open>__eq__\<close> of the adjoint accepts \<open>Ry(hi, idx, -2 * theta)\<close>.
\<close>

theorem C4_Ry_adjoint_doubles_angle:
  "H (Ry hi idx theta) = Ry hi idx (- 2 * theta) \<and>
   op_eq (H (Ry hi idx theta)) (Operator (Ry hi idx (- 2 * theta)))"
  by simp




text \<open>
  C6. \<^verbatim>\<open>get_conn_flattened\<close> fills \<open>sections\<close> with the cumulative connection counts
  \<open>(n + 1) * max_conn_size\<close>. The plain methods of Rx and Ry do (\<open>Rx_sections\<close>, \<open>Ry_sections\<close>
  above: \<open>2, 4, 6, ...\<close>). The methods of \<^verbatim>\<open>Hadamard\<close> and \<^verbatim>\<open>Hadamard_multi\<close> are decorated with
  \<^verbatim>\<open>@jax.jit\<close>, so their assignment to \<open>sections\<close> raises and \<open>sections\<close> is never written: for
  \<^verbatim>\<open>Hadamard_multi\<close> on the sites \<open>[0, 1]\<close>, one configuration and \<open>sections = [0]\<close>, the call
  raises \<^verbatim>\<open>TypeError\<close> and \<open>sections\<close> stays \<open>[0]\<close> where the count is 4. The values it had
  computed for the assignment are \<open>[2, 4]\<close>, with the step 2 of the fixed-arity gates
  instead of \<open>2 ^ k\<close>.
\<close>

theorem C6_jitted_get_conn_flattened_leaves_sections:
  "Hadamard_multi_get_conn_flattened \<lparr>hi_local_states = [0, 1 :: int], hi_size = 2\<rparr> [0, 1]
     [[0, 0]] [0] = ([0], Inl TypeError) \<and>
   max_conn_size (Hadamard_multi \<lparr>hi_local_states = [0, 1 :: int], hi_size = 2\<rparr> [0, 1]) = 4 \<and>
   arange 2 (int (1 * 2 ^ length [0, 1 :: int]) + 2) 2 = [2, 4] \<and>
   fst (Hadamard_multi_get_conn_flattened hi idxs x sections) = sections \<and>
   fst (Hadamard_get_conn_flattened hi idx x sections) = sections"
proof -
  have idx: "\<forall>q\<in>set [0, 1 :: int]. in_bounds (length [0, 0 :: int]) q"
    by (simp add: in_bounds_def normalize_index_def)
  have vals: "arange 2 6 2 = [2, 4]"
    by (simp add: arange_def upt_rec)
  have padded: "Hadamard_multi_get_conn_padded \<lparr>hi_local_states = [0, 1 :: int], hi_size = 2\<rparr>
          [0, 1] [[0, 0]] =
        Inr ([map (spec_conn [0, 0 :: int] [0, 1] [0, 1]) [0..<2 ^ length [0, 1 :: int]]],
             [map (spec_mel [0, 0 :: int] [0, 1] [0, 1]) [0..<2 ^ length [0, 1 :: int]]])"
    using Hadamard_multiple_result [of "[0, 1 :: int]" "[0, 1]" "[0, 0]", OF _ idx]
    by (simp add: Hadamard_multi_get_conn_padded_def reshape_rows_def)
  have failing: "Hadamard_multi_get_conn_flattened
          \<lparr>hi_local_states = [0, 1 :: int], hi_size = 2\<rparr> [0, 1] [[0, 0]] [0] =
        ([0], Inl TypeError)"
    by (simp add: Hadamard_multi_get_conn_flattened_def fill_sections_and_flatten_def
        traced_assign_all_def padded del: upt_Suc)
  have multi: "fst (Hadamard_multi_get_conn_flattened hi idxs x sections) = sections"
    by (simp add: Hadamard_multi_get_conn_flattened_def fill_sections_and_flatten_def
        traced_assign_all_def split: sum.split prod.split)
  have single: "fst (Hadamard_get_conn_flattened hi idx x sections) = sections"
    by (simp add: Hadamard_get_conn_flattened_def fill_sections_and_flatten_def
        traced_assign_all_def split: sum.split prod.split)
  show ?thesis
    using failing vals multi single by simp
qed

text \<open>
  C7. Two instances of one class with the same parameters compare equal. This fails for
  \<^verbatim>\<open>Hadamard_multi\<close>: its \<^verbatim>\<open>__eq__\<close> tests \<^verbatim>\<open>isinstance(o, Hadamard)\<close>, so the comparison of
  \<^verbatim>\<open>Hadamard_multi(hi, [0, 1])\<close> with an instance of the same parameters is false, as is its
  comparison with any object at all.
\<close>

theorem C7_Hadamard_multi_eq_never_true:
  "op_eq (Hadamard_multi \<lparr>hi_local_states = [0, 1 :: int], hi_size = 2\<rparr> [0, 1])
     (Operator (Hadamard_multi \<lparr>hi_local_states = [0, 1], hi_size = 2\<rparr> [0, 1])) = False \<and>
   op_eq (Hadamard_multi hi idx) other = False"
  by (simp split: pyobject.split operator.split)

text \<open>
  C8. For each of the four gates and every batch \<open>x\<close> of configurations (no empty row, indices
  in range, at least two local states), \<^verbatim>\<open>get_conn_padded\<close> returns one entry per row of the
  batch, and entry \<open>n\<close> is what the connect function returns on row \<open>n\<close> alone.
\<close>

theorem C8_batch_independence:
  assumes "2 \<le> length (hi_local_states hi)"
    and "[] \<notin> set x"
    and "\<forall>sigma\<in>set x. in_bounds (length sigma) idx"
    and "\<forall>sigma\<in>set x. \<forall>q\<in>set idxs. in_bounds (length sigma) q"
  shows "(\<exists>xp mels. Rx_get_conn_padded hi idx angle x = Inr (xp, mels) \<and>
            length xp = length x \<and> length mels = length x \<and>
            (\<forall>n<length x. get_conns_and_mels_Rx (x ! n) idx angle (hi_local_states hi)
                             = Inr (xp ! n, mels ! n))) \<and>
         (\<exists>xp mels. Ry_get_conn_padded hi idx angle x = Inr (xp, mels) \<and>
            length xp = length x \<and> length mels = length x \<and>
            (\<forall>n<length x. get_conns_and_mels_Ry (x ! n) idx angle (hi_local_states hi)
                             = Inr (xp ! n, mels ! n))) \<and>
         (\<exists>xp mels. Hadamard_get_conn_padded hi idx x = Inr (xp, mels) \<and>
            length xp = length x \<and> length mels = length x \<and>
            (\<forall>n<length x. get_conns_and_mels_Hadamard (x ! n) idx (hi_local_states hi)
                             = Inr (xp ! n, mels ! n))) \<and>
         (\<exists>xp mels. Hadamard_multi_get_conn_padded hi idxs x = Inr (xp, mels) \<and>
            length xp = length x \<and> length mels = length x \<and>
            (\<forall>n<length x. get_conns_and_mels_Hadamard_multiple (x ! n) idxs (hi_local_states hi)
                             = Inr (xp ! n, mels ! n)))"
proof -
  have rx: "\<forall>s\<in>set x. \<exists>c m. get_conns_and_mels_Rx s idx angle (hi_local_states hi) = Inr (c, m)"
    using Rx_result [OF assms(1)] assms(3) by blast
  have ry: "\<forall>s\<in>set x. \<exists>c m. get_conns_and_mels_Ry s idx angle (hi_local_states hi) = Inr (c, m)"
    using Ry_result [OF assms(1)] assms(3) by blast
  have hd: "\<forall>s\<in>set x. \<exists>c m. get_conns_and_mels_Hadamard s idx (hi_local_states hi) = Inr (c, m)"
    using Hadamard_result [OF assms(1)] assms(3) by blast
  have hm: "\<forall>s\<in>set x. \<exists>c m.
              get_conns_and_mels_Hadamard_multiple s idxs (hi_local_states hi) = Inr (c, m)"
    using Hadamard_multiple_result [OF assms(1)] assms(4) by blast
  show ?thesis
    unfolding Rx_get_conn_padded_def Ry_get_conn_padded_def Hadamard_get_conn_padded_def
      Hadamard_multi_get_conn_padded_def reshape_rows_ok [OF assms(2)] sum.case
    using vmap_rows [OF rx] vmap_rows [OF ry] vmap_rows [OF hd] vmap_rows [OF hm]
    by blast
qed

theorem C8_batch_independence_witness:
  "(\<exists>xp mels. Rx_get_conn_padded \<lparr>hi_local_states = [0, 1 :: int], hi_size = 3\<rparr> 1 pi
                 [[0, 1, 0], [1, 1, 0]] = Inr (xp, mels) \<and>
      length xp = length [[0, 1, 0], [1, 1, 0 :: int]] \<and>
      length mels = length [[0, 1, 0], [1, 1, 0 :: int]] \<and>
      (\<forall>n<length [[0, 1, 0], [1, 1, 0 :: int]].
          get_conns_and_mels_Rx ([[0, 1, 0], [1, 1, 0]] ! n) 1 pi
            (hi_local_states \<lparr>hi_local_states = [0, 1 :: int], hi_size = 3\<rparr>)
          = Inr (xp ! n, mels ! n))) \<and>
   (\<exists>xp mels. Ry_get_conn_padded \<lparr>hi_local_states = [0, 1 :: int], hi_size = 3\<rparr> 1 pi
                 [[0, 1, 0], [1, 1, 0]] = Inr (xp, mels) \<and>
      length xp = length [[0, 1, 0], [1, 1, 0 :: int]] \<and>
      length mels = length [[0, 1, 0], [1, 1, 0 :: int]] \<and>
      (\<forall>n<length [[0, 1, 0], [1, 1, 0 :: int]].
          get_conns_and_mels_Ry ([[0, 1, 0], [1, 1, 0]] ! n) 1 pi
            (hi_local_states \<lparr>hi_local_states = [0, 1 :: int], hi_size = 3\<rparr>)
          = Inr (xp ! n, mels ! n))) \<and>
   (\<exists>xp mels. Hadamard_get_conn_padded \<lparr>hi_local_states = [0, 1 :: int], hi_size = 3\<rparr> 1
                 [[0, 1, 0], [1, 1, 0]] = Inr (xp, mels) \<and>
      length xp = length [[0, 1, 0], [1, 1, 0 :: int]] \<and>
      length mels = length [[0, 1, 0], [1, 1, 0 :: int]] \<and>
      (\<forall>n<length [[0, 1, 0], [1, 1, 0 :: int]].
          get_conns_and_mels_Hadamard ([[0, 1, 0], [1, 1, 0]] ! n) 1
            (hi_local_states \<lparr>hi_local_states = [0, 1 :: int], hi_size = 3\<rparr>)
          = Inr (xp ! n, mels ! n))) \<and>
   (\<exists>xp mels. Hadamard_multi_get_conn_padded \<lparr>hi_local_states = [0, 1 :: int], hi_size = 3\<rparr>
                 [0, 2] [[0, 1, 0], [1, 1, 0]] = Inr (xp, mels) \<and>
      length xp = length [[0, 1, 0], [1, 1, 0 :: int]] \<and>
      length mels = length [[0, 1, 0], [1, 1, 0 :: int]] \<and>
      (\<forall>n<length [[0, 1, 0], [1, 1, 0 :: int]].
          get_conns_and_mels_Hadamard_multiple ([[0, 1, 0], [1, 1, 0]] ! n) [0, 2]
            (hi_local_states \<lparr>hi_local_states = [0, 1 :: int], hi_size = 3\<rparr>)
          = Inr (xp ! n, mels ! n)))"
proof -
  have ls: "2 \<le> length (hi_local_states \<lparr>hi_local_states = [0, 1 :: int], hi_size = 3\<rparr>)"
    by simp
  have rows: "[] \<notin> set [[0, 1, 0], [1, 1, 0 :: int]]"
    by simp
  have idx: "\<forall>sigma\<in>set [[0, 1, 0], [1, 1, 0 :: int]]. in_bounds (length sigma) 1"
    by (simp add: in_bounds_def normalize_index_def)
  have idxs: "\<forall>sigma\<in>set [[0, 1, 0], [1, 1, 0 :: int]].
                \<forall>q\<in>set [0, 2 :: int]. in_bounds (length sigma) q"
    by (simp add: in_bounds_def normalize_index_def)
  show ?thesis
    by (rule C8_batch_independence [OF ls rows idx idxs])
qed

text \<open>
  C9. Importing the package \<^verbatim>\<open>netket_fidelity.operator\<close> always raises \<^verbatim>\<open>ImportError\<close>: with the
  host packages in place, on the name \<^verbatim>\<open>Measure_0\<close>, which \<^verbatim>\<open>singlequbit_gates\<close> does not
  bind (nor \<^verbatim>\<open>Measure_1\<close>). \<^verbatim>\<open>Hadamard_multi\<close> is bound by the submodule and is not among the
  names the package imports.
\<close>

theorem C9_package_import_raises:
  "(\<exists>n. import_operator_package host_ok = Inl (ImportError n)) \<and>
   import_operator_package True = Inl (ImportError ''Measure_0'') \<and>
   ''Measure_0'' \<notin> set singlequbit_gates_names \<and>
   ''Measure_1'' \<notin> set singlequbit_gates_names \<and>
   ''Hadamard_multi'' \<in> set singlequbit_gates_names \<and>
   ''Hadamard_multi'' \<notin> set init_imported_names"
  by (simp add: import_operator_package_def singlequbit_gates_names_def init_imported_names_def)

text \<open>
  C10. In the flipped connection of each of the four gates, the value at a flipped target
  site is \<open>state_1\<close> when \<open>sigma\<close> holds \<open>state_0\<close> there, and \<open>state_0\<close> for every other value,
  also one outside the two local states. So flipping twice gives the value back exactly
  when it is \<open>state_0\<close> or \<open>state_1\<close>.
\<close>

theorem C10_flip_sends_other_values_to_state_0:
  assumes "2 \<le> length ls"
    and "in_bounds (length sigma) idx"
    and "\<forall>q\<in>set idxs. in_bounds (length sigma) q"
    and "i < 2 ^ length idxs" and "j < length idxs" and "bit i j"
  shows "(case get_conns_and_mels_Rx sigma idx angle ls of
            Inl e \<Rightarrow> False
          | Inr (conns, mels) \<Rightarrow>
              conns ! 1 ! site (length sigma) idx =
                (if sigma ! site (length sigma) idx = ls ! 0 then ls ! 1 else ls ! 0)) \<and>
         (case get_conns_and_mels_Ry sigma idx angle ls of
            Inl e \<Rightarrow> False
          | Inr (conns, mels) \<Rightarrow>
              conns ! 1 ! site (length sigma) idx =
                (if sigma ! site (length sigma) idx = ls ! 0 then ls ! 1 else ls ! 0)) \<and>
         (case get_conns_and_mels_Hadamard sigma idx ls of
            Inl e \<Rightarrow> False
          | Inr (conns, mels) \<Rightarrow>
              conns ! 1 ! site (length sigma) idx =
                (if sigma ! site (length sigma) idx = ls ! 0 then ls ! 1 else ls ! 0)) \<and>
         (case get_conns_and_mels_Hadamard_multiple sigma idxs ls of
            Inl e \<Rightarrow> False
          | Inr (conns, mels) \<Rightarrow>
              conns ! i ! site (length sigma) (idxs ! j) =
                (if sigma ! site (length sigma) (idxs ! j) = ls ! 0 then ls ! 1 else ls ! 0)) \<and>
         ((flipped_state (ls ! 0) (ls ! 1) (flipped_state (ls ! 0) (ls ! 1) v) = v)
            = (v = ls ! 0 \<or> v = ls ! 1))"
proof -
  have p: "site (length sigma) idx < length sigma"
    by (rule site_less [OF assms(2)])
  have multi: "map (spec_conn sigma idxs ls) [0..<2 ^ length idxs] ! i
                 ! site (length sigma) (idxs ! j) =
               (if sigma ! site (length sigma) (idxs ! j) = ls ! 0 then ls ! 1 else ls ! 0)"
    using assms(4) spec_conn_flipped_site [OF assms(3,5,6)] by simp
  show ?thesis
    unfolding Rx_result [OF assms(1,2)] Ry_result [OF assms(1,2)]
      Hadamard_result [OF assms(1,2)] Hadamard_multiple_result [OF assms(1,3)]
      flipped_twice sum.case prod.case multi
    using p by (simp add: flipped_state_def)
qed

theorem C10_flip_sends_other_values_to_state_0_witness:
  "(case get_conns_and_mels_Rx [7, 1, 0 :: int] 0 pi [0, 1] of
      Inl e \<Rightarrow> False | Inr (conns, mels) \<Rightarrow> conns ! 1 ! 0 = 0) \<and>
   (case get_conns_and_mels_Ry [7, 1, 0 :: int] 0 pi [0, 1] of
      Inl e \<Rightarrow> False | Inr (conns, mels) \<Rightarrow> conns ! 1 ! 0 = 0) \<and>
   (case get_conns_and_mels_Hadamard [7, 1, 0 :: int] 0 [0, 1] of
      Inl e \<Rightarrow> False | Inr (conns, mels) \<Rightarrow> conns ! 1 ! 0 = 0) \<and>
   (case get_conns_and_mels_Hadamard_multiple [7, 1, 0 :: int] [0, 2] [0, 1] of
      Inl e \<Rightarrow> False | Inr (conns, mels) \<Rightarrow> conns ! 1 ! 0 = 0) \<and>
   flipped_state 0 1 (flipped_state 0 1 (7 :: int)) \<noteq> 7"
proof -
  have ls: "2 \<le> length [0, 1 :: int]"
    by simp
  have idx: "in_bounds (length [7, 1, 0 :: int]) 0"
    by (simp add: in_bounds_def normalize_index_def)
  have idxs: "\<forall>q\<in>set [0, 2 :: int]. in_bounds (length [7, 1, 0 :: int]) q"
    by (simp add: in_bounds_def normalize_index_def)
  have i: "(1 :: nat) < 2 ^ length [0, 2 :: int]" and j: "(0 :: nat) < length [0, 2 :: int]"
    by simp_all
  have b: "bit (1 :: nat) 0"
    by (simp add: bit_0)
  from C10_flip_sends_other_values_to_state_0 [OF ls idx idxs i j b, of pi 7]
  show ?thesis
    by (auto split: sum.splits simp: site_def normalize_index_def)
qed

end
